theory Spec2Isabelle
  imports Complex_Main "HOL-Library.Word"
begin

section \<open>Data model\<close>

text \<open>
  The program is one script, \<^verbatim>\<open>app.py\<close>. For every uploaded file it decodes an image,
  derives a binary edge mask, scores the mask by its density, classifies the density into a
  risk tier, and draws a labelled box around every contour whose area exceeds
  \<^verbatim>\<open>min_area\<close>.

  A numpy array of \<^verbatim>\<open>uint8\<close> is a list of rows of 8-bit words; a colour image has a triple
  of channels in each cell.
\<close>

type_synonym uint8 = "8 word"
type_synonym 'a ndarray = "'a list list"
type_synonym pixel = "uint8 \<times> uint8 \<times> uint8"

text \<open>
  A \<^verbatim>\<open>float64\<close> result is modelled by the exact rational it approximates, with one extra
  value for the \<^verbatim>\<open>nan\<close> that numpy returns for \<^verbatim>\<open>0 / 0\<close>. A comparison with \<^verbatim>\<open>nan\<close> on
  either side is false. Where the exact rational lies halfway between two candidates of a
  rounding, the error of the float64 decides which one is taken, so the model leaves that
  choice open (\<open>tie_up\<close> below).
\<close>

datatype float64 = Finite rat | NaN

fun flt :: "float64 \<Rightarrow> rat \<Rightarrow> bool" where
  "flt (Finite a) b = (a < b)"
| "flt NaN b = False"

fun fle :: "float64 \<Rightarrow> float64 \<Rightarrow> bool" where
  "fle (Finite a) (Finite b) = (a \<le> b)"
| "fle _ _ = False"

datatype tier = SAFE | WARNING | CRITICAL

section \<open>Density and risk tier (lines 51--57)\<close>

text \<open>\<^verbatim>\<open>np.sum(dilated > 0)\<close>: the number of cells whose value is positive.\<close>

definition count_nonzero :: "uint8 ndarray \<Rightarrow> nat" where
  "count_nonzero a = length (filter (\<lambda>v. 0 < v) (concat a))"

text \<open>\<^verbatim>\<open>dilated.size\<close>: the number of cells of the array.\<close>

definition size_of :: "'a ndarray \<Rightarrow> nat" where
  "size_of a = length (concat a)"

text \<open>
  \<^verbatim>\<open>density = (np.sum(dilated > 0) / dilated.size) * 100\<close>. The count is a numpy integer, so
  a division by a size of zero does not raise: it yields \<^verbatim>\<open>nan\<close> (the count is zero too).
\<close>

definition density_of :: "uint8 ndarray \<Rightarrow> float64" where
  "density_of dilated =
     (if size_of dilated = 0 then NaN
      else Finite (of_nat (count_nonzero dilated) / of_nat (size_of dilated) * 100))"

text \<open>The \<^verbatim>\<open>if / elif / else\<close> chain that binds \<^verbatim>\<open>status\<close> and \<^verbatim>\<open>color\<close>.\<close>

definition risk :: "float64 \<Rightarrow> tier \<times> pixel" where
  "risk density =
     (if flt density (1 / 10) then (SAFE, (0, 255, 0))
      else if flt density 1 then (WARNING, (255, 255, 0))
      else (CRITICAL, (255, 0, 0)))"

section \<open>The OpenCV calls\<close>

text \<open>
  The script calls the OpenCV library for every image operation. The library is not part
  of the repository. What the design leaves to the library is a field of the record
  \<open>opencv\<close>, and every function below takes such a record: the decoder, the luma weights
  of the grey conversion, the non-maximum suppression of the edge detector, the contour
  tracer with its area and bounding box, and the cells that a drawn rectangle or a drawn
  text covers. A contour is the list of its points \<open>(x, y)\<close>. The last field is not
  OpenCV's: \<open>tie_up x\<close> says whether \<^verbatim>\<open>round\<close> goes up when the exact density \<open>x\<close> lies
  halfway between two multiples of the rounding step, which the rounding error of the
  float64 decides.
\<close>

type_synonym contour = "(int \<times> int) list"

record opencv =
  imdecode :: "uint8 list \<Rightarrow> pixel ndarray option"
  luma :: "pixel \<Rightarrow> uint8"
  nonmax :: "int ndarray \<Rightarrow> int ndarray \<Rightarrow> nat \<Rightarrow> nat \<Rightarrow> bool"
  findContours :: "uint8 ndarray \<Rightarrow> contour list"
  contourArea :: "contour \<Rightarrow> rat"
  boundingRect :: "contour \<Rightarrow> int \<times> int \<times> int \<times> int"
  rectangle_px :: "int \<times> int \<Rightarrow> int \<times> int \<Rightarrow> nat \<Rightarrow> (int \<times> int) list"
  putText_px :: "string \<Rightarrow> int \<times> int \<Rightarrow> nat \<Rightarrow> (int \<times> int) list"
  tie_up :: "rat \<Rightarrow> bool"

text \<open>\<^verbatim>\<open>cv2.error\<close>, raised by \<^verbatim>\<open>cv2.cvtColor\<close> when its source is \<^verbatim>\<open>None\<close>.\<close>

datatype error = CvError

definition height :: "'a ndarray \<Rightarrow> nat" where
  "height a = length a"

definition width :: "'a ndarray \<Rightarrow> nat" where
  "width a = (case a of [] \<Rightarrow> 0 | r # _ \<Rightarrow> length r)"

text \<open>The array of \<open>h\<close> rows and \<open>w\<close> columns whose cell \<open>(y, x)\<close> holds \<open>f y x\<close>.\<close>

definition tabulate2 :: "nat \<Rightarrow> nat \<Rightarrow> (nat \<Rightarrow> nat \<Rightarrow> 'a) \<Rightarrow> 'a ndarray" where
  "tabulate2 h w f = map (\<lambda>y. map (\<lambda>x. f y x) [0..<w]) [0..<h]"

definition positions :: "nat \<Rightarrow> nat \<Rightarrow> (nat \<times> nat) list" where
  "positions h w = List.product [0..<h] [0..<w]"

text \<open>
  \<^verbatim>\<open>cv2.imdecode\<close> returns \<^verbatim>\<open>None\<close> for bytes it cannot decode, and \<^verbatim>\<open>cv2.cvtColor\<close> raises
  on \<^verbatim>\<open>None\<close>. The conversion to RGB swaps the first and the third channel; the conversion
  to grey applies the luma weights to every pixel.
\<close>

definition cvtColor_BGR2RGB :: "pixel ndarray option \<Rightarrow> error + pixel ndarray" where
  "cvtColor_BGR2RGB src =
     (case src of
        None \<Rightarrow> Inl CvError
      | Some img \<Rightarrow> Inr (map (map (\<lambda>(b, g, r). (r, g, b))) img))"

definition cvtColor_BGR2GRAY :: "opencv \<Rightarrow> pixel ndarray option \<Rightarrow> error + uint8 ndarray" where
  "cvtColor_BGR2GRAY cv src =
     (case src of
        None \<Rightarrow> Inl CvError
      | Some img \<Rightarrow> Inr (map (map (luma cv)) img))"

subsection \<open>Preprocessor: the 5 by 5 blur\<close>

text \<open>The index that a read at \<open>p\<close> outside \<open>0..<n\<close> is mirrored to (the edge cell is not repeated).\<close>

definition reflect101 :: "nat \<Rightarrow> int \<Rightarrow> nat" where
  "reflect101 n p =
     (if n \<le> 1 then 0
      else let m = 2 * (int n - 1); q = p mod m
           in nat (if q < int n then q else m - q))"

definition gauss5 :: "int list" where
  "gauss5 = [1, 4, 6, 4, 1]"

text \<open>
  Modelled from the spec: \<^verbatim>\<open>cv2.GaussianBlur(gray, (5, 5), 0)\<close> of the OpenCV library, which
  is not under src/. The spec gives a smoothing filter with a fixed 5 by 5 neighbourhood
  whose spread is derived from the kernel size: the weights are the binomial row
  1 4 6 4 1 over 16 in each direction, the sum is rounded to the nearest integer, and a
  read outside the image is mirrored.
\<close>

definition GaussianBlur :: "uint8 ndarray \<Rightarrow> uint8 ndarray" where
  "GaussianBlur src =
     (let h = height src; w = width src
      in tabulate2 h w (\<lambda>y x.
           of_int ((sum_list
             (map (\<lambda>(i, j). gauss5 ! i * gauss5 ! j *
                    uint (src ! reflect101 h (int y + int i - 2) ! reflect101 w (int x + int j - 2)))
                  (List.product [0..<5] [0..<5])) + 128) div 256)))"

subsection \<open>Edge extractor: dual-threshold detector and dilation\<close>

definition clamp_ix :: "nat \<Rightarrow> int \<Rightarrow> nat" where
  "clamp_ix n p = nat (max 0 (min (int n - 1) p))"

text \<open>A read of the grey image; outside the image the nearest edge cell is read.\<close>

definition at_replicate :: "uint8 ndarray \<Rightarrow> int \<Rightarrow> int \<Rightarrow> int" where
  "at_replicate a y x = uint (a ! clamp_ix (height a) y ! clamp_ix (width a) x)"

definition sobel_x :: "uint8 ndarray \<Rightarrow> nat \<Rightarrow> nat \<Rightarrow> int" where
  "sobel_x a y x =
     (let p = (\<lambda>dy dx. at_replicate a (int y + dy) (int x + dx))
      in (p (- 1) 1 + 2 * p 0 1 + p 1 1) - (p (- 1) (- 1) + 2 * p 0 (- 1) + p 1 (- 1)))"

definition sobel_y :: "uint8 ndarray \<Rightarrow> nat \<Rightarrow> nat \<Rightarrow> int" where
  "sobel_y a y x =
     (let p = (\<lambda>dy dx. at_replicate a (int y + dy) (int x + dx))
      in (p 1 (- 1) + 2 * p 1 0 + p 1 1) - (p (- 1) (- 1) + 2 * p (- 1) 0 + p (- 1) 1))"

text \<open>The cells of an \<open>h\<close> by \<open>w\<close> array within distance one of a cell, the cell included.\<close>

definition nbhd :: "nat \<Rightarrow> nat \<Rightarrow> nat \<times> nat \<Rightarrow> (nat \<times> nat) list" where
  "nbhd h w p =
     List.product [fst p - 1 ..< min h (fst p + 2)] [snd p - 1 ..< min w (snd p + 2)]"

text \<open>
  One round of edge tracking: a cell stays, and a candidate cell joins when one of its
  neighbours is already in.
\<close>

definition grow :: "nat \<Rightarrow> nat \<Rightarrow> (nat \<times> nat \<Rightarrow> bool) \<Rightarrow> (nat \<times> nat) list \<Rightarrow> (nat \<times> nat) list" where
  "grow h w cand S =
     filter (\<lambda>p. p \<in> set S \<or> (cand p \<and> list_ex (\<lambda>q. q \<in> set S) (nbhd h w p)))
       (positions h w)"

text \<open>
  Edge tracking starts from the strong cells and runs one round per cell of the image,
  which is enough to reach every candidate connected to a strong cell (see
  \<open>hysteresis_closed\<close> and \<open>hysteresis_tracked\<close> below).
\<close>

definition hysteresis ::
  "nat \<Rightarrow> nat \<Rightarrow> (nat \<times> nat \<Rightarrow> bool) \<Rightarrow> (nat \<times> nat \<Rightarrow> bool) \<Rightarrow> (nat \<times> nat) list" where
  "hysteresis h w cand strong = (grow h w cand ^^ (h * w)) (filter strong (positions h w))"

text \<open>
  Modelled from the spec: \<^verbatim>\<open>cv2.Canny(blurred, threshold1, threshold2)\<close> of the OpenCV library,
  which is not under src/. The spec gives a dual-threshold gradient-based detector: a cell
  is an edge only where the gradient magnitude exceeds the low bound and the cell connects
  to a cell whose magnitude exceeds the high bound. The gradient is the 3 by 3 Sobel pair,
  its magnitude the sum of the two absolute values; the smaller threshold is the low
  bound. Which cells survive the thinning is left to \<open>nonmax\<close>, a function of the two
  gradient fields and the cell, not of the thresholds. An edge cell holds 255.
\<close>

definition Canny :: "opencv \<Rightarrow> uint8 ndarray \<Rightarrow> rat \<Rightarrow> rat \<Rightarrow> uint8 ndarray" where
  "Canny cv src threshold1 threshold2 =
     (let h = height src; w = width src;
          low = min threshold1 threshold2; high = max threshold1 threshold2;
          gx = tabulate2 h w (sobel_x src); gy = tabulate2 h w (sobel_y src);
          mag = (\<lambda>p. \<bar>sobel_x src (fst p) (snd p)\<bar> + \<bar>sobel_y src (fst p) (snd p)\<bar>);
          cand = (\<lambda>p. low < of_int (mag p) \<and> nonmax cv gx gy (fst p) (snd p));
          strong = (\<lambda>p. cand p \<and> high < of_int (mag p));
          E = hysteresis h w cand strong
      in tabulate2 h w (\<lambda>y x. if (y, x) \<in> set E then 255 else 0))"

text \<open>
  Modelled from the spec: \<^verbatim>\<open>cv2.dilate(edges, np.ones((3,3), np.uint8), iterations=1)\<close> of the
  OpenCV library, which is not under src/. The spec gives one dilation with a 3 by 3
  structuring element: a cell takes the largest value among the cells of the image within
  distance one.
\<close>

definition dilate :: "uint8 ndarray \<Rightarrow> uint8 ndarray" where
  "dilate src =
     (let h = height src; w = width src
      in tabulate2 h w (\<lambda>y x. foldr max (map (\<lambda>(q, r). src ! q ! r) (nbhd h w (y, x))) 0))"

section \<open>Configuration (lines 24--25)\<close>

record config =
  sensitivity :: int
  min_area :: int

text \<open>
  What the user did with the two sidebar widgets and the uploader in this run of the
  script: \<open>None\<close> for a widget left alone, the uploaded files as pairs of name and bytes.
\<close>

record widgets =
  sensitivity_input :: "int option"
  min_area_input :: "int option"
  uploaded_files :: "(string \<times> uint8 list) list"

text \<open>
  \<^verbatim>\<open>st.slider("Sensitivity", 20, 200, 100)\<close>: the handle cannot leave the track, so the value
  lies between the two bounds.
\<close>

definition slider :: "int \<Rightarrow> int \<Rightarrow> int \<Rightarrow> int option \<Rightarrow> int" where
  "slider min_value max_value dflt moved =
     (case moved of None \<Rightarrow> dflt | Some v \<Rightarrow> max min_value (min max_value v))"

text \<open>
  \<^verbatim>\<open>st.number_input("Min Crack Size", value=100)\<close>: the call passes neither \<^verbatim>\<open>min_value\<close> nor
  \<^verbatim>\<open>max_value\<close>, so the widget returns the integer that was typed.
\<close>

definition number_input :: "int \<Rightarrow> int option \<Rightarrow> int" where
  "number_input dflt typed = (case typed of None \<Rightarrow> dflt | Some v \<Rightarrow> v)"

definition sidebar :: "widgets \<Rightarrow> config" where
  "sidebar ui =
     \<lparr>sensitivity = slider 20 200 100 (sensitivity_input ui),
      min_area = number_input 100 (min_area_input ui)\<rparr>"

section \<open>Region extractor (lines 60--68)\<close>

text \<open>
  The drawing calls write into the array they are given, so the arrays live in a store:
  a variable of the script holds the identity of an array, \<^verbatim>\<open>copy()\<close> allocates a new one,
  and a drawing call replaces the content stored under one identity.
\<close>

record store =
  objs :: "nat \<Rightarrow> pixel ndarray"
  next_id :: nat

definition np_copy :: "nat \<Rightarrow> store \<Rightarrow> nat \<times> store" where
  "np_copy a s =
     (next_id s, s\<lparr>objs := (objs s)(next_id s := objs s a), next_id := Suc (next_id s)\<rparr>)"

text \<open>Writing one cell \<open>(x, y)\<close>; a cell outside the image is clipped away.\<close>

definition set_px :: "pixel \<Rightarrow> pixel ndarray \<Rightarrow> int \<times> int \<Rightarrow> pixel ndarray" where
  "set_px color a p =
     (let x = fst p; y = snd p
      in if 0 \<le> x \<and> 0 \<le> y \<and> nat y < length a \<and> nat x < length (a ! nat y)
         then a[nat y := (a ! nat y)[nat x := color]]
         else a)"

definition paint :: "pixel \<Rightarrow> (int \<times> int) list \<Rightarrow> pixel ndarray \<Rightarrow> pixel ndarray" where
  "paint color pts a = fold (\<lambda>p b. set_px color b p) pts a"

text \<open>\<^verbatim>\<open>cv2.rectangle(overlay, pt1, pt2, color, thickness)\<close>, in place.\<close>

definition rectangle ::
  "opencv \<Rightarrow> nat \<Rightarrow> int \<times> int \<Rightarrow> int \<times> int \<Rightarrow> pixel \<Rightarrow> nat \<Rightarrow> store \<Rightarrow> store" where
  "rectangle cv a pt1 pt2 color thickness s =
     s\<lparr>objs := (objs s)(a := paint color (rectangle_px cv pt1 pt2 thickness) (objs s a))\<rparr>"

text \<open>\<^verbatim>\<open>cv2.putText(overlay, label, org, FONT_HERSHEY_SIMPLEX, 0.5, color, thickness)\<close>, in place.\<close>

definition putText ::
  "opencv \<Rightarrow> nat \<Rightarrow> string \<Rightarrow> int \<times> int \<Rightarrow> pixel \<Rightarrow> nat \<Rightarrow> store \<Rightarrow> store" where
  "putText cv a label org color thickness s =
     s\<lparr>objs := (objs s)(a := paint color (putText_px cv label org thickness) (objs s a))\<rparr>"

text \<open>The decimal digits of a number, as the f-string prints them.\<close>

fun str :: "nat \<Rightarrow> string" where
  "str n =
     (if n < 10 then [char_of (48 + n)]
      else str (n div 10) @ [char_of (48 + n mod 10)])"

declare str.simps [simp del]

text \<open>The loop over the contours, with \<^verbatim>\<open>count\<close> and the store as its state.\<close>

fun draw_loop ::
  "opencv \<Rightarrow> config \<Rightarrow> pixel \<Rightarrow> nat \<Rightarrow> contour list \<Rightarrow> nat \<times> store \<Rightarrow> nat \<times> store" where
  "draw_loop cv cfg color overlay [] (count, s) = (count, s)"
| "draw_loop cv cfg color overlay (cnt # contours) (count, s) =
     (if of_int (min_area cfg) < contourArea cv cnt
      then
        (case boundingRect cv cnt of (x, y, w, h) \<Rightarrow>
           let s1 = rectangle cv overlay (x, y) (x + w, y + h) color 2 s;
               s2 = putText cv overlay (''Crack '' @ str (count + 1)) (x, y - 5) color 1 s1
           in draw_loop cv cfg color overlay contours (count + 1, s2))
      else draw_loop cv cfg color overlay contours (count, s))"

text \<open>Lines 60--68: the result is the identity of the overlay and the count.\<close>

definition annotate ::
  "opencv \<Rightarrow> config \<Rightarrow> pixel \<Rightarrow> uint8 ndarray \<Rightarrow> nat \<Rightarrow> store \<Rightarrow> (nat \<times> nat) \<times> store" where
  "annotate cv cfg color dilated img_rgb s =
     (let contours = findContours cv dilated;
          (overlay, s1) = np_copy img_rgb s;
          (count, s2) = draw_loop cv cfg color overlay contours (0, s1)
      in ((overlay, count), s2))"

section \<open>One image, and the batch (lines 35--76)\<close>

text \<open>
  The nearest integer; \<open>up\<close> says which of the two is taken when \<open>x\<close> lies halfway
  between them.
\<close>

definition rint :: "bool \<Rightarrow> rat \<Rightarrow> int" where
  "rint up x =
     (let f = \<lfloor>x\<rfloor>; d = x - of_int f
      in if d < 1 / 2 then f else if 1 / 2 < d then f + 1 else if up then f + 1 else f)"

text \<open>
  \<^verbatim>\<open>round(density, 4)\<close>: a multiple of \<open>10\<^sup>-\<^sup>4\<close> nearest to the density. For an exact
  density halfway between two multiples the float64 lies a little to one side, and
  \<open>tie\<close> says to which.
\<close>

fun round_py :: "(rat \<Rightarrow> bool) \<Rightarrow> float64 \<Rightarrow> nat \<Rightarrow> float64" where
  "round_py tie (Finite x) ndigits =
     Finite (of_int (rint (tie x) (x * 10 ^ ndigits)) / 10 ^ ndigits)"
| "round_py tie NaN ndigits = NaN"

record result =
  name :: string
  density :: float64
  count :: nat
  status :: tier
  img :: "pixel ndarray"

text \<open>
  The body of the loop over the uploaded files. Each image gets a store of its own: no
  array is shared between two iterations.
\<close>

definition process_image :: "opencv \<Rightarrow> config \<Rightarrow> string \<times> uint8 list \<Rightarrow> error + result" where
  "process_image cv cfg uploaded_file =
     (let decoded = imdecode cv (snd uploaded_file)
      in case cvtColor_BGR2RGB decoded of
           Inl e \<Rightarrow> Inl e
         | Inr img_rgb \<Rightarrow>
             (case cvtColor_BGR2GRAY cv decoded of
                Inl e \<Rightarrow> Inl e
              | Inr gray \<Rightarrow>
                  let blurred = GaussianBlur gray;
                      edges = Canny cv blurred (of_int (sensitivity cfg))
                                (of_int (sensitivity cfg) * 5 / 2);
                      dilated = dilate edges;
                      raw = density_of dilated;
                      color = snd (risk raw);
                      r = annotate cv cfg color dilated 0
                            \<lparr>objs = (\<lambda>_. [])(0 := img_rgb), next_id = 1\<rparr>
                  in Inr \<lparr>name = fst uploaded_file,
                          density = round_py (tie_up cv) raw 4,
                          count = snd (fst r),
                          status = fst (risk raw),
                          img = objs (snd r) (fst (fst r))\<rparr>))"

text \<open>
  The loop itself. An exception of one iteration leaves the loop: nothing catches it, and
  the script ends without a result list.
\<close>

fun process_files ::
  "opencv \<Rightarrow> config \<Rightarrow> (string \<times> uint8 list) list \<Rightarrow> result list \<Rightarrow> error + result list" where
  "process_files cv cfg [] results_list = Inr results_list"
| "process_files cv cfg (f # fs) results_list =
     (case process_image cv cfg f of
        Inl e \<Rightarrow> Inl e
      | Inr r \<Rightarrow> process_files cv cfg fs (results_list @ [r]))"

definition run :: "opencv \<Rightarrow> widgets \<Rightarrow> error + result list" where
  "run cv ui =
     (if uploaded_files ui = [] then Inr []
      else process_files cv (sidebar ui) (uploaded_files ui) [])"

section \<open>Reference definitions for the statements\<close>

text \<open>The edge mask of a decoded image: lines 45--48 of the loop body, composed.\<close>

definition edge_mask :: "opencv \<Rightarrow> config \<Rightarrow> pixel ndarray \<Rightarrow> uint8 ndarray" where
  "edge_mask cv cfg im =
     dilate (Canny cv (GaussianBlur (map (map (luma cv)) im))
               (of_int (sensitivity cfg)) (of_int (sensitivity cfg) * 5 / 2))"

text \<open>The cells that the detector marks: the edge tracking inside \<open>Canny\<close>, on its own.\<close>

definition canny_edges :: "opencv \<Rightarrow> uint8 ndarray \<Rightarrow> rat \<Rightarrow> rat \<Rightarrow> (nat \<times> nat) list" where
  "canny_edges cv src threshold1 threshold2 =
     (let h = height src; w = width src;
          low = min threshold1 threshold2; high = max threshold1 threshold2;
          gx = tabulate2 h w (sobel_x src); gy = tabulate2 h w (sobel_y src);
          mag = (\<lambda>p. \<bar>sobel_x src (fst p) (snd p)\<bar> + \<bar>sobel_y src (fst p) (snd p)\<bar>);
          cand = (\<lambda>p. low < of_int (mag p) \<and> nonmax cv gx gy (fst p) (snd p));
          strong = (\<lambda>p. cand p \<and> high < of_int (mag p))
      in hysteresis h w cand strong)"

text \<open>
  The spec's wording of edge tracking, for comparison with \<open>hysteresis\<close>: a cell is an edge
  when it is a strong cell, or a candidate with a neighbour that is an edge.
\<close>

inductive tracked ::
  "nat \<Rightarrow> nat \<Rightarrow> (nat \<times> nat \<Rightarrow> bool) \<Rightarrow> (nat \<times> nat \<Rightarrow> bool) \<Rightarrow> nat \<times> nat \<Rightarrow> bool"
  for h w cand strong where
  seed: "p \<in> set (positions h w) \<Longrightarrow> strong p \<Longrightarrow> tracked h w cand strong p"
| link: "tracked h w cand strong q \<Longrightarrow> p \<in> set (positions h w) \<Longrightarrow> cand p \<Longrightarrow>
         q \<in> set (nbhd h w p) \<Longrightarrow> tracked h w cand strong p"

text \<open>
  The spec's region extractor, for comparison with \<open>draw_loop\<close>: every contour of the list
  it is given is drawn and counted, without a test.
\<close>

fun draw_all ::
  "opencv \<Rightarrow> pixel \<Rightarrow> nat \<Rightarrow> contour list \<Rightarrow> nat \<times> store \<Rightarrow> nat \<times> store" where
  "draw_all cv color overlay [] (k, s) = (k, s)"
| "draw_all cv color overlay (cnt # contours) (k, s) =
     (case boundingRect cv cnt of (x, y, w, h) \<Rightarrow>
        draw_all cv color overlay contours
          (k + 1,
           putText cv overlay (''Crack '' @ str (k + 1)) (x, y - 5) color 1
             (rectangle cv overlay (x, y) (x + w, y + h) color 2 s)))"

text \<open>
  The cells covered by the boxes and labels of a list of contours, the first of which gets
  the label number \<open>k + 1\<close>.
\<close>

fun drawn_px :: "opencv \<Rightarrow> contour list \<Rightarrow> nat \<Rightarrow> (int \<times> int) list" where
  "drawn_px cv [] k = []"
| "drawn_px cv (cnt # contours) k =
     (case boundingRect cv cnt of (x, y, w, h) \<Rightarrow>
        rectangle_px cv (x, y) (x + w, y + h) 2 @
        putText_px cv (''Crack '' @ str (k + 1)) (x, y - 5) 1 @
        drawn_px cv contours (k + 1))"

text \<open>
  The area that \<^verbatim>\<open>cv2.contourArea\<close> of the OpenCV library (not under src/) returns for a
  contour, as the library documents it: Green's formula, half the absolute value of the
  sum of \<open>x\<^sub>p\<^sub>r\<^sub>e\<^sub>v * y - y\<^sub>p\<^sub>r\<^sub>e\<^sub>v * x\<close> over the points of the contour, each taken with the
  point before it, the first with the last. It is the area of the polygon through the
  points, not the number of cells of the component the contour surrounds.
\<close>

definition polygon_area :: "contour \<Rightarrow> rat" where
  "polygon_area c =
     (if c = [] then 0
      else \<bar>of_int (sum_list (map (\<lambda>(p, q). fst p * snd q - snd p * fst q)
                                 (zip (last c # butlast c) c)))\<bar> / 2)"

subsection \<open>Concrete inputs\<close>

text \<open>
  A small library instance, used to run the functions on concrete inputs: one row of grey
  pixels per byte string, no thinning, one single-point contour for each cell of the mask
  that is set, the number of points as the area, every tie rounded down.
\<close>

definition cv_demo :: opencv where
  "cv_demo =
     \<lparr>imdecode = (\<lambda>bs. if bs = [] then None else Some [map (\<lambda>b. (b, b, b)) bs]),
      luma = (\<lambda>(b, g, r). g),
      nonmax = (\<lambda>gx gy y x. True),
      findContours = (\<lambda>m. concat (map (\<lambda>(y, x). if m ! y ! x = 0 then [] else [[(int x, int y)]])
                                  (positions (height m) (width m)))),
      contourArea = (\<lambda>c. of_nat (length c)),
      boundingRect = (\<lambda>c. case c of [] \<Rightarrow> (0, 0, 0, 0) | p # _ \<Rightarrow> (fst p, snd p, 1, 1)),
      rectangle_px = (\<lambda>pt1 pt2 t. [pt1, pt2]),
      putText_px = (\<lambda>label org t. [org]),
      tie_up = (\<lambda>x. False)\<rparr>"

definition st_demo :: store where
  "st_demo = \<lparr>objs = (\<lambda>_. [])(0 := [[(1, 2, 3), (4, 5, 6), (7, 8, 9)]]), next_id = 1\<rparr>"

definition ui_demo :: widgets where
  "ui_demo = \<lparr>sensitivity_input = None, min_area_input = None,
              uploaded_files = [(''a.png'', [7]), (''bad.png'', []), (''c.png'', [9])]\<rparr>"

definition ui_negative :: widgets where
  "ui_negative = \<lparr>sensitivity_input = None, min_area_input = Some (- 5),
                  uploaded_files = [(''a.png'', [7])]\<rparr>"

text \<open>
  Two masks of 3000 rows and 4000 columns: one without an edge cell, one with a single
  block of 3 by 3 edge cells.
\<close>

definition mask_clear :: "uint8 ndarray" where
  "mask_clear = replicate 3000 (replicate 4000 0)"

definition mask_speck :: "uint8 ndarray" where
  "mask_speck =
     replicate 1 (replicate 4000 0) @
     replicate 3 (0 # replicate 3 255 @ replicate 3996 0) @
     replicate 2996 (replicate 4000 0)"

text \<open>
  A mask of 5 rows and 53 columns with one component, a block of 3 rows and 51 columns of
  edge cells (the dilation of a straight edge of 49 cells), and the outline of that block
  as the tracer returns it: its four corners.
\<close>

definition mask_line :: "uint8 ndarray" where
  "mask_line =
     replicate 1 (replicate 53 0) @
     replicate 3 (0 # replicate 51 255 @ [0]) @
     replicate 1 (replicate 53 0)"

definition line_outline :: contour where
  "line_outline = [(1, 1), (1, 3), (51, 3), (51, 1)]"

text \<open>The small library instance with the polygon area, and with the outline for that mask.\<close>

definition cv_poly :: opencv where
  "cv_poly =
     cv_demo\<lparr>findContours := (\<lambda>m. if m = mask_line then [line_outline] else findContours cv_demo m),
             contourArea := polygon_area\<rparr>"

section \<open>Properties of the density scorer\<close>

lemma count_nonzero_le_size: "count_nonzero a \<le> size_of a"
  by (simp add: count_nonzero_def size_of_def)

lemma concat_replicate_length: "length (concat (replicate n xs)) = n * length xs"
  by (induction n) simp_all

lemma filter_concat_replicate:
  "length (filter P (concat (replicate n xs))) = n * length (filter P xs)"
  by (induction n) simp_all

text \<open>
  Claim C1. The tier is a function of the density alone: it is SAFE exactly when the
  density is below 0.1, WARNING exactly when it is at least 0.1 and below 1.0, and CRITICAL
  exactly when it is at least 1.0. A density of exactly 0.1 is WARNING, one of exactly 1.0
  is CRITICAL.
\<close>

theorem tier_thresholds:
  "(fst (risk (Finite d)) = SAFE \<longleftrightarrow> d < 1 / 10) \<and>
   (fst (risk (Finite d)) = WARNING \<longleftrightarrow> 1 / 10 \<le> d \<and> d < 1) \<and>
   (fst (risk (Finite d)) = CRITICAL \<longleftrightarrow> 1 \<le> d) \<and>
   fst (risk (Finite (1 / 10))) = WARNING \<and>
   fst (risk (Finite 1)) = CRITICAL"
  by (simp add: risk_def)

text \<open>
  Claim C2. For a mask with at least one cell, the density is the number of edge cells
  divided by the number of cells, times 100, and it lies between 0 and 100.
\<close>

theorem density_ratio_bounds:
  assumes "0 < size_of m"
  shows "density_of m = Finite (of_nat (count_nonzero m) / of_nat (size_of m) * 100) \<and>
         fle (Finite 0) (density_of m) \<and> fle (density_of m) (Finite 100)"
proof -
  define r :: rat where "r = of_nat (count_nonzero m) / of_nat (size_of m)"
  have pos: "(0::rat) < of_nat (size_of m)" using assms by simp
  have "(of_nat (count_nonzero m) :: rat) \<le> of_nat (size_of m)"
    using count_nonzero_le_size [of m] by simp
  then have "r \<le> 1" unfolding r_def using pos by (simp add: divide_le_eq)
  then have up: "r * 100 \<le> 100" by linarith
  have "0 \<le> r" unfolding r_def by simp
  then have lo: "0 \<le> r * 100" by linarith
  have "density_of m = Finite (r * 100)"
    using assms by (simp add: density_of_def r_def)
  then show ?thesis using lo up by (simp add: r_def)
qed

theorem density_ratio_bounds_witness:
  "0 < size_of [[0, 255], [255, 255 :: uint8]] \<and>
   density_of [[0, 255], [255, 255]] = Finite 75"
  using density_ratio_bounds [of "[[0, 255], [255, 255]]"]
  by (simp add: size_of_def count_nonzero_def)

section \<open>Properties of the region extractor\<close>

lemma draw_loop_filter:
  "draw_loop cv cfg color ov cs (k, s) = draw_all cv color ov (filter (\<lambda>cnt. \<not> contourArea cv cnt \<le> of_int (min_area cfg)) cs) (k, s)"
  by (induction cs arbitrary: k s) (auto simp: Let_def not_le split: prod.splits)

lemma draw_all_count: "fst (draw_all cv color ov cs (k, s)) = k + length cs"
  by (induction cs arbitrary: k s) (auto split: prod.splits)

lemma draw_loop_count:
  "fst (draw_loop cv cfg color ov cs (k, s)) = k + length (filter (\<lambda>cnt. \<not> contourArea cv cnt \<le> of_int (min_area cfg)) cs)"
  by (simp add: draw_loop_filter draw_all_count)

lemma annotate_unfold:
  "annotate cv cfg color dilated a s =
     ((next_id s, fst (draw_loop cv cfg color (next_id s) (findContours cv dilated) (0, snd (np_copy a s)))),
      snd (draw_loop cv cfg color (next_id s) (findContours cv dilated) (0, snd (np_copy a s))))"
  by (simp add: annotate_def np_copy_def split: prod.splits)

lemma length_filter_mono:
  "(\<And>x. x \<in> set xs \<Longrightarrow> P x \<Longrightarrow> Q x) \<Longrightarrow> length (filter P xs) \<le> length (filter Q xs)"
  by (induction xs) auto

lemma polygon_area_rectangle:
  "polygon_area [(x0, y0), (x0, y1), (x1, y1), (x1, y0)] = \<bar>of_int ((x1 - x0) * (y1 - y0))\<bar>"
proof -
  have "x1 * y0 - y0 * x0 + (x0 * y1 - y0 * x0 + (x0 * y1 - y1 * x1 + (x1 * y0 - y1 * x1)))
      = - 2 * ((x1 - x0) * (y1 - y0))"
    by (simp add: algebra_simps)
  then have "polygon_area [(x0, y0), (x0, y1), (x1, y1), (x1, y0)]
      = \<bar>of_int (- 2 * ((x1 - x0) * (y1 - y0)))\<bar> / 2"
    by (simp add: polygon_area_def)
  also have "\<dots> = \<bar>of_int ((x1 - x0) * (y1 - y0))\<bar>"
    by (simp add: abs_mult)
  finally show ?thesis .
qed

lemma draw_loop_one:
  "draw_loop cv cfg color ov [c] (k, s) = (k, s) \<longleftrightarrow> contourArea cv c \<le> of_int (min_area cfg)"
proof
  assume "draw_loop cv cfg color ov [c] (k, s) = (k, s)"
  then have "fst (draw_loop cv cfg color ov [c] (k, s)) = k" by simp
  then show "contourArea cv c \<le> of_int (min_area cfg)"
    using draw_loop_count [of cv cfg color ov "[c]" k s]
    by (simp add: not_le del: draw_loop.simps split: if_splits)
next
  assume "contourArea cv c \<le> of_int (min_area cfg)"
  then show "draw_loop cv cfg color ov [c] (k, s) = (k, s)" by simp
qed

text \<open>
  Claim C3, as the code has it. The claim speaks of the pixel area of a component; the
  loop compares the area that \<^verbatim>\<open>cv2.contourArea\<close> returns for the contour. A contour is
  discarded, leaving both the count and the overlay as they were, exactly when that area
  is at most \<^verbatim>\<open>min_area\<close>; it is counted exactly when that area is strictly greater; over
  a list of contours the loop draws and counts exactly those whose area is not at most
  \<^verbatim>\<open>min_area\<close>. With the polygon area that the library computes, the outline of a filled
  block is discarded exactly when the product of its two side lengths, each one less than
  the number of cells along that side, is at most \<^verbatim>\<open>min_area\<close>.
\<close>

theorem area_filter:
  "(draw_loop cv cfg color ov [c] (k, s) = (k, s) \<longleftrightarrow> contourArea cv c \<le> of_int (min_area cfg)) \<and>
   (fst (draw_loop cv cfg color ov [c] (k, s)) = k + 1 \<longleftrightarrow> of_int (min_area cfg) < contourArea cv c) \<and>
   draw_loop cv cfg color ov cs (k, s) =
     draw_all cv color ov (filter (\<lambda>cnt. \<not> contourArea cv cnt \<le> of_int (min_area cfg)) cs) (k, s) \<and>
   fst (draw_loop cv cfg color ov cs (k, s)) =
     k + length (filter (\<lambda>cnt. \<not> contourArea cv cnt \<le> of_int (min_area cfg)) cs) \<and>
   (contourArea cv = polygon_area \<longrightarrow>
      (draw_loop cv cfg color ov [[(x0, y0), (x0, y1), (x1, y1), (x1, y0)]] (k, s) = (k, s)
         \<longleftrightarrow> \<bar>(x1 - x0) * (y1 - y0)\<bar> \<le> min_area cfg))"
proof -
  have one: "fst (draw_loop cv cfg color ov [c] (k, s)) =
      (if of_int (min_area cfg) < contourArea cv c then k + 1 else k)"
    using draw_loop_count [of cv cfg color ov "[c]" k s]
    by (simp add: not_le del: draw_loop.simps)
  have b: "fst (draw_loop cv cfg color ov [c] (k, s)) = k + 1 \<longleftrightarrow> of_int (min_area cfg) < contourArea cv c"
    using one by simp
  have r: "draw_loop cv cfg color ov [[(x0, y0), (x0, y1), (x1, y1), (x1, y0)]] (k, s) = (k, s)
      \<longleftrightarrow> \<bar>(x1 - x0) * (y1 - y0)\<bar> \<le> min_area cfg"
    if "contourArea cv = polygon_area"
  proof -
    have "(\<bar>of_int ((x1 - x0) * (y1 - y0))\<bar> :: rat) \<le> of_int (min_area cfg)
        \<longleftrightarrow> \<bar>(x1 - x0) * (y1 - y0)\<bar> \<le> min_area cfg"
      unfolding of_int_abs [symmetric] of_int_le_iff ..
    then show ?thesis
      unfolding draw_loop_one that polygon_area_rectangle .
  qed
  show ?thesis
    using draw_loop_one [of cv cfg color ov c k s] b r
      draw_loop_filter [of cv cfg color ov cs k s] draw_loop_count [of cv cfg color ov cs k s]
    by blast
qed

theorem area_filter_witness:
  "draw_loop cv_demo \<lparr>sensitivity = 100, min_area = 2\<rparr> (255, 0, 0) 1 [[(0, 0), (1, 0)]] (0, st_demo)
     = (0, st_demo) \<and>
   fst (draw_loop cv_demo \<lparr>sensitivity = 100, min_area = 2\<rparr> (255, 0, 0) 1
          [[(0, 0), (1, 0)], [(0, 0), (1, 0), (1, 1)]] (0, st_demo)) = 1 \<and>
   contourArea cv_poly = polygon_area \<and>
   draw_loop cv_poly \<lparr>sensitivity = 100, min_area = 100\<rparr> (255, 0, 0) 1
     [[(1, 1), (1, 3), (51, 3), (51, 1)]] (0, st_demo) = (0, st_demo) \<and>
   draw_loop cv_poly \<lparr>sensitivity = 100, min_area = 99\<rparr> (255, 0, 0) 1
     [[(1, 1), (1, 3), (51, 3), (51, 1)]] (0, st_demo) \<noteq> (0, st_demo)"
proof -
  have p: "contourArea cv_poly = polygon_area" by (simp add: cv_poly_def)
  have a: "draw_loop cv_demo \<lparr>sensitivity = 100, min_area = 2\<rparr> (255, 0, 0) 1 [[(0, 0), (1, 0)]] (0, st_demo)
       = (0, st_demo) \<and>
     fst (draw_loop cv_demo \<lparr>sensitivity = 100, min_area = 2\<rparr> (255, 0, 0) 1
          [[(0, 0), (1, 0)], [(0, 0), (1, 0), (1, 1)]] (0, st_demo)) = 1"
    using area_filter [of cv_demo "\<lparr>sensitivity = 100, min_area = 2\<rparr>" "(255, 0, 0)" 1
        "[(0, 0), (1, 0)]" 0 st_demo "[[(0, 0), (1, 0)], [(0, 0), (1, 0), (1, 1)]]"]
    by (simp add: cv_demo_def del: draw_loop.simps)
  have b: "draw_loop cv_poly \<lparr>sensitivity = 100, min_area = 100\<rparr> (255, 0, 0) 1
      [[(1, 1), (1, 3), (51, 3), (51, 1)]] (0, st_demo) = (0, st_demo)"
    using p area_filter [of cv_poly "\<lparr>sensitivity = 100, min_area = 100\<rparr>" "(255, 0, 0)" 1
        "[]" 0 st_demo "[]" 1 1 3 51]
    by (simp del: draw_loop.simps)
  have c: "draw_loop cv_poly \<lparr>sensitivity = 100, min_area = 99\<rparr> (255, 0, 0) 1
      [[(1, 1), (1, 3), (51, 3), (51, 1)]] (0, st_demo) \<noteq> (0, st_demo)"
    using p area_filter [of cv_poly "\<lparr>sensitivity = 100, min_area = 99\<rparr>" "(255, 0, 0)" 1
        "[]" 0 st_demo "[]" 1 1 3 51]
    by (simp del: draw_loop.simps)
  show ?thesis using p a b c by blast
qed

lemma mask_line_count: "count_nonzero mask_line = 153"
  by (simp add: count_nonzero_def mask_line_def filter_concat_replicate)

text \<open>
  The claim as stated fails on a mask whose only component has 153 cells, with the default
  \<^verbatim>\<open>min_area\<close> of 100: the pixel area exceeds \<^verbatim>\<open>min_area\<close>, the area of its outline is
  100, and the component is discarded, so the region count is 0.
\<close>

theorem pixel_area_counterexample:
  "count_nonzero mask_line = 153 \<and>
   min_area (sidebar ui_demo) = 100 \<and>
   findContours cv_poly mask_line = [line_outline] \<and>
   contourArea cv_poly line_outline = 100 \<and>
   snd (fst (annotate cv_poly (sidebar ui_demo) (255, 0, 0) mask_line 0 st_demo)) = 0"
proof -
  have m: "min_area (sidebar ui_demo) = 100"
    by (simp add: sidebar_def number_input_def ui_demo_def)
  have f: "findContours cv_poly mask_line = [line_outline]"
    by (simp add: cv_poly_def)
  have a: "contourArea cv_poly line_outline = 100"
    unfolding line_outline_def by (simp add: cv_poly_def polygon_area_rectangle)
  have "snd (fst (annotate cv_poly (sidebar ui_demo) (255, 0, 0) mask_line 0 st_demo)) = 0"
    by (simp add: annotate_unfold draw_loop_count f a m del: draw_loop.simps)
  then show ?thesis using mask_line_count m f a by blast
qed

text \<open>
  Claim C7. With the edge mask fixed, a larger \<^verbatim>\<open>min_area\<close> never gives a larger region
  count.
\<close>

theorem region_count_antimono:
  assumes "min_area cfg1 \<le> min_area cfg2"
  shows "snd (fst (annotate cv cfg2 color2 dilated a s)) \<le> snd (fst (annotate cv cfg1 color1 dilated a s))"
proof -
  have "(of_int (min_area cfg1) :: rat) \<le> of_int (min_area cfg2)" using assms by simp
  then have "length (filter (\<lambda>cnt. \<not> contourArea cv cnt \<le> of_int (min_area cfg2)) (findContours cv dilated))
      \<le> length (filter (\<lambda>cnt. \<not> contourArea cv cnt \<le> of_int (min_area cfg1)) (findContours cv dilated))"
    by (intro length_filter_mono) auto
  then show ?thesis by (simp add: annotate_unfold draw_loop_count)
qed

theorem region_count_antimono_witness:
  "min_area \<lparr>sensitivity = 100, min_area = 0\<rparr> \<le> min_area \<lparr>sensitivity = 100, min_area = 1\<rparr> \<and>
   snd (fst (annotate cv_demo \<lparr>sensitivity = 100, min_area = 1\<rparr> (255, 0, 0) [[255, 0, 0]] 0 st_demo))
     \<le> snd (fst (annotate cv_demo \<lparr>sensitivity = 100, min_area = 0\<rparr> (255, 0, 0) [[255, 0, 0]] 0 st_demo))"
  using region_count_antimono [of "\<lparr>sensitivity = 100, min_area = 0\<rparr>"
      "\<lparr>sensitivity = 100, min_area = 1\<rparr>" cv_demo "(255, 0, 0)" "[[255, 0, 0]]" 0 st_demo "(255, 0, 0)"]
  by simp

subsection \<open>The overlay is a copy\<close>

lemma set_px_shape: "map length (set_px c a p) = map length a"
  by (auto simp: set_px_def Let_def map_update list_update_same_conv)

lemma paint_shape: "map length (paint c pts a) = map length a"
  unfolding paint_def by (induction pts arbitrary: a) (simp_all add: set_px_shape)

lemma set_px_other: "(int x, int y) \<noteq> p \<Longrightarrow> set_px c a p ! y ! x = a ! y ! x"
  by (cases p) (auto simp: set_px_def Let_def nth_list_update)

lemma paint_other: "(int x, int y) \<notin> set pts \<Longrightarrow> paint c pts a ! y ! x = a ! y ! x"
  unfolding paint_def by (induction pts arbitrary: a) (auto simp: set_px_other)

lemma paint_append: "paint c (ps @ qs) a = paint c qs (paint c ps a)"
  by (simp add: paint_def)

lemma draw_all_store:
  "draw_all cv color ov cs (k, s) = (k', s') \<Longrightarrow>
     next_id s' = next_id s \<and> (\<forall>a. a \<noteq> ov \<longrightarrow> objs s' a = objs s a) \<and>
     objs s' ov = paint color (drawn_px cv cs k) (objs s ov)"
proof (induction cs arbitrary: k s)
  case Nil
  then show ?case by (simp add: paint_def)
next
  case (Cons c cs)
  obtain x y w h where b: "boundingRect cv c = (x, y, w, h)" by (cases "boundingRect cv c") auto
  let ?s2 = "putText cv ov (''Crack '' @ str (k + 1)) (x, y - 5) color 1
             (rectangle cv ov (x, y) (x + w, y + h) color 2 s)"
  from Cons.prems b have "draw_all cv color ov cs (k + 1, ?s2) = (k', s')" by simp
  from Cons.IH [OF this] show ?case
    by (simp add: b putText_def rectangle_def paint_append)
qed

text \<open>
  Claim C6. The overlay is a new array, distinct from the original; no array that existed
  before the call is changed, the original among them; the overlay has the row lengths of
  the original, and each of its cells outside the drawn boxes and labels holds the pixel
  of the original.
\<close>

theorem annotate_frame:
  assumes "a < next_id s"
    and "annotate cv cfg color dilated a s = ((ov, n), s')"
  shows "ov \<noteq> a \<and>
         (\<forall>b. b < next_id s \<longrightarrow> objs s' b = objs s b) \<and>
         map length (objs s' ov) = map length (objs s a) \<and>
         (\<forall>y x. (int x, int y) \<notin> set (drawn_px cv
                   (filter (\<lambda>cnt. of_int (min_area cfg) < contourArea cv cnt) (findContours cv dilated)) 0) \<longrightarrow>
            objs s' ov ! y ! x = objs s a ! y ! x)"
proof -
  let ?cs = "filter (\<lambda>cnt. \<not> contourArea cv cnt \<le> of_int (min_area cfg)) (findContours cv dilated)"
  let ?s1 = "snd (np_copy a s)"
  from assms(2) have ov: "ov = next_id s"
    and r: "draw_all cv color (next_id s) ?cs (0, ?s1) = (n, s')"
    by (auto simp: annotate_unfold draw_loop_filter)
  from draw_all_store [OF r]
  have other: "\<And>b. b \<noteq> next_id s \<Longrightarrow> objs s' b = objs ?s1 b"
    and new: "objs s' (next_id s) = paint color (drawn_px cv ?cs 0) (objs ?s1 (next_id s))" by auto
  have s1: "objs ?s1 (next_id s) = objs s a" "\<And>b. b \<noteq> next_id s \<Longrightarrow> objs ?s1 b = objs s b"
    by (simp_all add: np_copy_def)
  have surv: "(\<lambda>cnt. \<not> contourArea cv cnt \<le> of_int (min_area cfg)) = (\<lambda>cnt. of_int (min_area cfg) < contourArea cv cnt)"
    by (auto simp: fun_eq_iff)
  show ?thesis
    using assms(1) other s1 by (auto simp: ov new paint_shape paint_other simp flip: surv)
qed

theorem annotate_frame_witness:
  "(0 :: nat) < next_id st_demo \<and>
   fst (fst (annotate cv_demo \<lparr>sensitivity = 100, min_area = 0\<rparr> (255, 0, 0) [[255, 0, 0]] 0 st_demo)) \<noteq> 0 \<and>
   objs (snd (annotate cv_demo \<lparr>sensitivity = 100, min_area = 0\<rparr> (255, 0, 0) [[255, 0, 0]] 0 st_demo)) 0
     = objs st_demo 0 \<and>
   objs (snd (annotate cv_demo \<lparr>sensitivity = 100, min_area = 0\<rparr> (255, 0, 0) [[255, 0, 0]] 0 st_demo))
     (fst (fst (annotate cv_demo \<lparr>sensitivity = 100, min_area = 0\<rparr> (255, 0, 0) [[255, 0, 0]] 0 st_demo))) ! 0 ! 2
     = (7, 8, 9)"
proof -
  have h: "(0 :: nat) < next_id st_demo" by (simp add: st_demo_def)
  have d: "drawn_px cv_demo (filter (\<lambda>c. of_int (min_area \<lparr>sensitivity = 100, min_area = 0\<rparr>) < contourArea cv_demo c)
             (findContours cv_demo [[255, 0, 0]])) 0 = [(0, 0), (1, 1), (0, - 5)]"
    by (simp add: cv_demo_def height_def width_def positions_def)
  have o: "objs st_demo 0 ! 0 ! 2 = (7, 8, 9)" by (simp add: st_demo_def)
  let ?r = "annotate cv_demo \<lparr>sensitivity = 100, min_area = 0\<rparr> (255, 0, 0) [[255, 0, 0]] 0 st_demo"
  have e: "?r = ((fst (fst ?r), snd (fst ?r)), snd ?r)" by simp
  show ?thesis
    using h o annotate_frame [OF h e] unfolding d by auto
qed

section \<open>Properties of the batch\<close>

lemma process_image_None:
  "imdecode cv (snd f) = None \<Longrightarrow> process_image cv cfg f = Inl CvError"
  by (simp add: process_image_def cvtColor_BGR2RGB_def)

lemma process_image_Some:
  assumes "imdecode cv (snd f) = Some im"
  shows "\<exists>r. process_image cv cfg f = Inr r \<and> name r = fst f \<and>
           density r = round_py (tie_up cv) (density_of (edge_mask cv cfg im)) 4 \<and>
           status r = fst (risk (density_of (edge_mask cv cfg im))) \<and>
           count r = snd (fst (annotate cv cfg (snd (risk (density_of (edge_mask cv cfg im))))
                       (edge_mask cv cfg im) 0
                       \<lparr>objs = (\<lambda>_. [])(0 := map (map (\<lambda>(b, g, r). (r, g, b))) im), next_id = 1\<rparr>))"
  using assms
  by (simp add: process_image_def cvtColor_BGR2RGB_def cvtColor_BGR2GRAY_def edge_mask_def Let_def)

lemma process_files_all:
  "(\<forall>f\<in>set fs. imdecode cv (snd f) \<noteq> None) \<Longrightarrow>
     \<exists>rs. process_files cv cfg fs acc = Inr (acc @ rs) \<and> map name rs = map fst fs"
proof (induction fs arbitrary: acc)
  case Nil
  then show ?case by simp
next
  case (Cons f fs)
  then obtain im where "imdecode cv (snd f) = Some im" by auto
  from process_image_Some [OF this, of cfg]
  obtain r where r: "process_image cv cfg f = Inr r" "name r = fst f" by auto
  from Cons have "\<forall>g\<in>set fs. imdecode cv (snd g) \<noteq> None" by simp
  from Cons.IH [OF this, of "acc @ [r]"]
  obtain rs where "process_files cv cfg fs (acc @ [r]) = Inr ((acc @ [r]) @ rs)" "map name rs = map fst fs"
    by auto
  then have "process_files cv cfg (f # fs) acc = Inr (acc @ (r # rs)) \<and> map name (r # rs) = map fst (f # fs)"
    using r by simp
  then show ?case by blast
qed

lemma process_files_abort:
  "(\<exists>f\<in>set fs. imdecode cv (snd f) = None) \<Longrightarrow> process_files cv cfg fs acc = Inl CvError"
proof (induction fs arbitrary: acc)
  case Nil
  then show ?case by simp
next
  case (Cons f fs)
  show ?case
  proof (cases "imdecode cv (snd f)")
    case None
    then show ?thesis by (simp add: process_image_None)
  next
    case (Some im)
    from process_image_Some [OF this, of cfg]
    obtain r where r: "process_image cv cfg f = Inr r" by auto
    from Cons.prems Some have "\<exists>g\<in>set fs. imdecode cv (snd g) = None" by auto
    from Cons.IH [OF this] show ?thesis using r by simp
  qed
qed

text \<open>
  Claim C4, as the code has it. The claim asks that an undecodable image fails alone. In
  the code the exception of \<^verbatim>\<open>cv2.cvtColor\<close> leaves the loop: one undecodable file among
  the uploads ends the run with the error and without any result, and only a batch whose
  files all decode yields one result per file, in upload order.
\<close>

theorem decode_failure_aborts_batch:
  "((\<exists>f\<in>set (uploaded_files ui). imdecode cv (snd f) = None) \<longrightarrow> run cv ui = Inl CvError) \<and>
   ((\<forall>f\<in>set (uploaded_files ui). imdecode cv (snd f) \<noteq> None) \<longrightarrow>
      (\<exists>rs. run cv ui = Inr rs \<and> map name rs = map fst (uploaded_files ui)))"
proof (intro conjI impI)
  assume "\<exists>f\<in>set (uploaded_files ui). imdecode cv (snd f) = None"
  then have "uploaded_files ui \<noteq> []" by auto
  then show "run cv ui = Inl CvError"
    using process_files_abort \<open>\<exists>f\<in>set (uploaded_files ui). imdecode cv (snd f) = None\<close>
    by (simp add: run_def)
next
  assume a: "\<forall>f\<in>set (uploaded_files ui). imdecode cv (snd f) \<noteq> None"
  show "\<exists>rs. run cv ui = Inr rs \<and> map name rs = map fst (uploaded_files ui)"
  proof (cases "uploaded_files ui = []")
    case True
    then show ?thesis by (simp add: run_def)
  next
    case False
    from process_files_all [OF a, of "sidebar ui" "[]"] False show ?thesis by (simp add: run_def)
  qed
qed

theorem decode_failure_aborts_batch_witness:
  "run cv_demo ui_demo = Inl CvError \<and>
   (\<exists>rs. run cv_demo (ui_demo\<lparr>uploaded_files := [(''a.png'', [7]), (''c.png'', [9])]\<rparr>) = Inr rs \<and>
         map name rs = [''a.png'', ''c.png''])"
  using decode_failure_aborts_batch [of ui_demo cv_demo]
    decode_failure_aborts_batch [of "ui_demo\<lparr>uploaded_files := [(''a.png'', [7]), (''c.png'', [9])]\<rparr>" cv_demo]
  by (simp add: ui_demo_def cv_demo_def)

text \<open>
  The claim as stated fails on a batch of three files whose second does not decode: the
  first and the third decode, and the run yields no result.
\<close>

theorem decode_failure_counterexample:
  "imdecode cv_demo [7] \<noteq> None \<and> imdecode cv_demo [] = None \<and> imdecode cv_demo [9] \<noteq> None \<and>
   run cv_demo ui_demo = Inl CvError"
proof -
  have "\<exists>f\<in>set (uploaded_files ui_demo). imdecode cv_demo (snd f) = None"
    by (simp add: ui_demo_def cv_demo_def)
  then have "process_files cv_demo (sidebar ui_demo) (uploaded_files ui_demo) [] = Inl CvError"
    by (rule process_files_abort)
  then show ?thesis by (simp add: run_def ui_demo_def cv_demo_def)
qed

section \<open>Properties of the configuration\<close>

lemma draw_loop_all_survive:
  "min_area cfg < 0 \<Longrightarrow> (\<forall>c\<in>set cs. 0 \<le> contourArea cv c) \<Longrightarrow>
     fst (draw_loop cv cfg color ov cs (k, s)) = k + length cs"
proof -
  assume neg: "min_area cfg < 0" and nn: "\<forall>c\<in>set cs. 0 \<le> contourArea cv c"
  have "(of_int (min_area cfg) :: rat) < 0" using neg by simp
  then have "filter (\<lambda>cnt. \<not> contourArea cv cnt \<le> of_int (min_area cfg)) cs = cs"
    using nn by (auto simp: filter_id_conv not_le intro: less_le_trans)
  then show ?thesis by (simp add: draw_loop_count)
qed

text \<open>
  Claim C5, as the code has it. The claim asks that a negative \<^verbatim>\<open>min_area\<close> is rejected or
  clamped. In the code the configuration holds the integer that was typed, 100 when
  nothing was typed; only the sensitivity is confined, to 20..200. A run whose files all
  decode yields its results whatever was typed, and with a negative \<^verbatim>\<open>min_area\<close> every
  contour of non-negative area is drawn and counted.
\<close>

theorem min_area_unchecked:
  "min_area (sidebar ui) = (case min_area_input ui of None \<Rightarrow> 100 | Some v \<Rightarrow> v) \<and>
   20 \<le> sensitivity (sidebar ui) \<and> sensitivity (sidebar ui) \<le> 200 \<and>
   ((\<forall>f\<in>set (uploaded_files ui). imdecode cv (snd f) \<noteq> None) \<longrightarrow>
      (\<exists>rs. run cv ui = Inr rs \<and> map name rs = map fst (uploaded_files ui))) \<and>
   (min_area cfg < 0 \<and> (\<forall>c\<in>set cs. 0 \<le> contourArea cv c) \<longrightarrow>
      fst (draw_loop cv cfg color ov cs (k, s)) = k + length cs)"
proof -
  have a: "min_area (sidebar ui) = (case min_area_input ui of None \<Rightarrow> 100 | Some v \<Rightarrow> v)"
    by (simp add: sidebar_def number_input_def)
  have b: "20 \<le> sensitivity (sidebar ui) \<and> sensitivity (sidebar ui) \<le> 200"
    by (simp add: sidebar_def slider_def split: option.splits)
  have c: "(\<forall>f\<in>set (uploaded_files ui). imdecode cv (snd f) \<noteq> None) \<longrightarrow>
      (\<exists>rs. run cv ui = Inr rs \<and> map name rs = map fst (uploaded_files ui))"
  proof
    assume all: "\<forall>f\<in>set (uploaded_files ui). imdecode cv (snd f) \<noteq> None"
    show "\<exists>rs. run cv ui = Inr rs \<and> map name rs = map fst (uploaded_files ui)"
    proof (cases "uploaded_files ui = []")
      case True
      then show ?thesis by (simp add: run_def)
    next
      case False
      from process_files_all [OF all, of "sidebar ui" "[]"] False show ?thesis by (simp add: run_def)
    qed
  qed
  show ?thesis using a b c draw_loop_all_survive [of cfg cs cv color ov k s] by blast
qed

theorem min_area_unchecked_witness:
  "min_area (sidebar ui_negative) = - 5 \<and>
   (\<exists>rs. run cv_demo ui_negative = Inr rs \<and> map name rs = [''a.png'']) \<and>
   fst (draw_loop cv_demo (sidebar ui_negative) (0, 255, 0) 1 [[], [(3, 4)]] (0, st_demo)) = 2"
  using min_area_unchecked [of ui_negative cv_demo "sidebar ui_negative" "[[], [(3, 4)]]" "(0, 255, 0)" 1 0 st_demo]
  by (simp add: ui_negative_def cv_demo_def sidebar_def number_input_def del: draw_loop.simps)

text \<open>
  The claim as stated fails when \<open>-5\<close> is typed: the configuration holds \<open>-5\<close>, the run
  yields a result, and the region extractor counts a contour of area 0.
\<close>

theorem negative_min_area_counterexample:
  "min_area (sidebar ui_negative) = - 5 \<and>
   (case run cv_demo ui_negative of Inl e \<Rightarrow> False | Inr rs \<Rightarrow> map name rs = [''a.png'']) \<and>
   fst (draw_loop cv_demo (sidebar ui_negative) (0, 255, 0) 1 [[]] (0, st_demo)) = 1"
proof -
  have "\<forall>f\<in>set (uploaded_files ui_negative). imdecode cv_demo (snd f) \<noteq> None"
    by (simp add: ui_negative_def cv_demo_def)
  from process_files_all [OF this, of "sidebar ui_negative" "[]"]
  obtain rs where "process_files cv_demo (sidebar ui_negative) (uploaded_files ui_negative) [] = Inr rs"
    "map name rs = map fst (uploaded_files ui_negative)" by auto
  then have "case run cv_demo ui_negative of Inl e \<Rightarrow> False | Inr rs \<Rightarrow> map name rs = [''a.png'']"
    by (simp add: run_def ui_negative_def)
  moreover have "min_area (sidebar ui_negative) = - 5"
    by (simp add: sidebar_def number_input_def ui_negative_def)
  moreover have "fst (draw_loop cv_demo (sidebar ui_negative) (0, 255, 0) 1 [[]] (0, st_demo)) = 1"
    by (simp add: sidebar_def number_input_def ui_negative_def cv_demo_def)
  ultimately show ?thesis by simp
qed

section \<open>Properties of the stored density\<close>

lemma rint_near: "\<bar>of_int (rint up x) - x\<bar> \<le> 1 / 2"
proof -
  have "of_int \<lfloor>x\<rfloor> \<le> x" "x < of_int \<lfloor>x\<rfloor> + 1" by linarith+
  then show ?thesis by (auto simp: rint_def Let_def)
qed

lemma rint_unique:
  assumes "\<bar>x - of_int k\<bar> < 1 / 2"
  shows "rint up x = k"
proof -
  have "\<bar>of_int (rint up x) - x\<bar> \<le> 1 / 2" by (rule rint_near)
  with assms have "\<bar>(of_int (rint up x) :: rat) - of_int k\<bar> < 1" by linarith
  then have "\<bar>(of_int (rint up x - k) :: rat)\<bar> < of_int 1" by simp
  then have "\<bar>rint up x - k\<bar> < 1" unfolding of_int_abs [symmetric] of_int_less_iff .
  then show ?thesis by simp
qed

lemma round4_near: "\<bar>of_int (rint up (d * 10000)) / 10000 - d\<bar> \<le> 1 / 20000" for d :: rat
proof -
  have "\<bar>of_int (rint up (d * 10000)) - d * 10000\<bar> \<le> 1 / 2" by (rule rint_near)
  then show ?thesis by (simp add: abs_le_iff field_simps)
qed

lemma round_py_4: "round_py tie (Finite d) 4 = Finite (of_int (rint (tie d) (d * 10000)) / 10000)"
  by simp

lemma mask_clear_density: "density_of mask_clear = Finite 0"
  by (simp add: density_of_def size_of_def count_nonzero_def mask_clear_def
      concat_replicate_length filter_concat_replicate)

lemma mask_speck_density: "density_of mask_speck = Finite (3 / 40000)"
  by (simp add: density_of_def size_of_def count_nonzero_def mask_speck_def
      concat_replicate_length filter_concat_replicate)

text \<open>
  Claim C10, as the code has it. The stored density is a multiple of 0.0001 nearest to the
  raw density: it is at most 0.00005 away from it, and it is the multiple \<open>k / 10000\<close>
  whenever the raw density is less than 0.00005 away from that multiple, so two raw
  densities strictly inside the same rounding interval are stored as the same value. The
  tier is the tier of the raw density.
\<close>

theorem density_rounded:
  assumes "imdecode cv (snd f) = Some im"
    and "density_of (edge_mask cv cfg im) = Finite d"
  shows "\<exists>r. process_image cv cfg f = Inr r \<and>
           status r = fst (risk (Finite d)) \<and>
           (\<exists>k :: int. density r = Finite (of_int k / 10000) \<and>
                       \<bar>of_int k / 10000 - d\<bar> \<le> 1 / 20000) \<and>
           (\<forall>k :: int. \<bar>d * 10000 - of_int k\<bar> < 1 / 2 \<longrightarrow> density r = Finite (of_int k / 10000))"
proof -
  from process_image_Some [OF assms(1), of cfg] assms(2)
  obtain r where r: "process_image cv cfg f = Inr r"
    and st: "status r = fst (risk (Finite d))"
    and de: "density r = Finite (of_int (rint (tie_up cv d) (d * 10000)) / 10000)"
    by (auto simp: round_py_4 simp del: round_py.simps)
  have near: "\<exists>k :: int. density r = Finite (of_int k / 10000) \<and> \<bar>of_int k / 10000 - d\<bar> \<le> 1 / 20000"
    using de round4_near [of "tie_up cv d" d] by blast
  have only: "density r = Finite (of_int k / 10000)" if "\<bar>d * 10000 - of_int k\<bar> < 1 / 2" for k :: int
    using de rint_unique [OF that, of "tie_up cv d"] by simp
  show ?thesis using r st near only by blast
qed

theorem density_rounded_witness:
  "imdecode cv_demo (snd (''a.png'', [0, 255, 255])) = Some [[(0, 0, 0), (255, 255, 255), (255, 255, 255)]] \<and>
   density_of (edge_mask cv_demo (sidebar ui_demo) [[(0, 0, 0), (255, 255, 255), (255, 255, 255)]])
     = Finite 100 \<and>
   \<bar>(100 :: rat) * 10000 - of_int 1000000\<bar> < 1 / 2 \<and>
   (\<exists>r. process_image cv_demo (sidebar ui_demo) (''a.png'', [0, 255, 255]) = Inr r \<and>
        density r = Finite 100 \<and> status r = CRITICAL)"
proof -
  have i: "imdecode cv_demo (snd (''a.png'', [0, 255, 255]))
      = Some [[(0, 0, 0), (255, 255, 255), (255, 255, 255)]]"
    by (simp add: cv_demo_def)
  have m: "edge_mask cv_demo (sidebar ui_demo) [[(0, 0, 0), (255, 255, 255), (255, 255, 255)]]
      = [[255, 255, 255]]"
    by code_simp
  have d: "density_of (edge_mask cv_demo (sidebar ui_demo) [[(0, 0, 0), (255, 255, 255), (255, 255, 255)]])
      = Finite 100"
    unfolding m by (simp add: density_of_def size_of_def count_nonzero_def)
  have k: "\<bar>(100 :: rat) * 10000 - of_int 1000000\<bar> < 1 / 2" by simp
  from density_rounded [OF i d]
  obtain r where p: "process_image cv_demo (sidebar ui_demo) (''a.png'', [0, 255, 255]) = Inr r"
    and t: "status r = fst (risk (Finite 100))"
    and a: "\<forall>k :: int. \<bar>(100 :: rat) * 10000 - of_int k\<bar> < 1 / 2 \<longrightarrow> density r = Finite (of_int k / 10000)"
    by blast
  from a k have "density r = Finite (of_int 1000000 / 10000)" by blast
  then have "density r = Finite 100" by simp
  moreover have "status r = CRITICAL" using t by (simp add: risk_def)
  ultimately have "\<exists>r. process_image cv_demo (sidebar ui_demo) (''a.png'', [0, 255, 255]) = Inr r \<and>
      density r = Finite 100 \<and> status r = CRITICAL"
    using p by blast
  then show ?thesis using i d k by blast
qed

text \<open>
  The claim as stated fails for two raw densities that differ only beyond the fourth
  decimal place: 0 and 0.000075 both start 0.0000, neither lies halfway between two
  multiples, and they are stored as 0 and 0.0001 whichever way a tie would go.
\<close>

theorem rounding_counterexample:
  "density_of mask_clear = Finite 0 \<and> density_of mask_speck = Finite (3 / 40000) \<and>
   \<lfloor>(0 :: rat) * 10 ^ 4\<rfloor> = \<lfloor>(3 / 40000 :: rat) * 10 ^ 4\<rfloor> \<and>
   round_py (\<lambda>x. False) (density_of mask_clear) 4 = Finite 0 \<and>
   round_py (\<lambda>x. True) (density_of mask_clear) 4 = Finite 0 \<and>
   round_py (\<lambda>x. False) (density_of mask_speck) 4 = Finite (1 / 10000) \<and>
   round_py (\<lambda>x. True) (density_of mask_speck) 4 = Finite (1 / 10000)"
proof -
  have "\<lfloor>(0 :: rat) * 10 ^ 4\<rfloor> = \<lfloor>(3 / 40000 :: rat) * 10 ^ 4\<rfloor>" by code_simp
  moreover have "rint up ((0 :: rat) * 10000) = 0" for up
    by (rule rint_unique) simp
  then have "round_py tie (Finite 0) 4 = Finite 0" for tie
    unfolding round_py_4 by simp
  moreover have "rint up ((3 / 40000 :: rat) * 10000) = 1" for up
    by (rule rint_unique) simp
  then have "round_py tie (Finite (3 / 40000)) 4 = Finite (1 / 10000)" for tie
    unfolding round_py_4 by simp
  ultimately show ?thesis by (simp only: mask_clear_density mask_speck_density simp_thms)
qed

text \<open>A raw density of 0.09996 is SAFE, although its stored value 0.1 would be WARNING.\<close>

lemma tier_from_raw_density:
  "fst (risk (Finite (9996 / 100000))) = SAFE \<and>
   round_py tie (Finite (9996 / 100000)) 4 = Finite (1 / 10) \<and>
   fst (risk (round_py tie (Finite (9996 / 100000)) 4)) = WARNING"
proof -
  have "rint up ((9996 / 100000 :: rat) * 10000) = 1000" for up
    by (rule rint_unique) simp
  then have r: "round_py tie (Finite (9996 / 100000)) 4 = Finite (1 / 10)"
    unfolding round_py_4 by simp
  show ?thesis unfolding r by (simp add: risk_def)
qed

section \<open>Properties of the edge extractor\<close>

subsection \<open>Shapes and cells of tabulated arrays\<close>

lemma height_replicate: "height (replicate h r) = h"
  by (simp add: height_def)

lemma width_replicate: "0 < h \<Longrightarrow> width (replicate h r) = length r"
  by (cases h) (simp_all add: width_def)

lemma tabulate2_const:
  "(\<And>y x. y < h \<Longrightarrow> x < w \<Longrightarrow> f y x = c) \<Longrightarrow> tabulate2 h w f = replicate h (replicate w c)"
  by (auto simp: tabulate2_def list_eq_iff_nth_eq)

lemma height_tabulate2: "height (tabulate2 h w f) = h"
  by (simp add: height_def tabulate2_def)

lemma width_tabulate2: "width (tabulate2 h w f) = (if h = 0 then 0 else w)"
  by (cases h) (simp_all add: width_def tabulate2_def upt_conv_Cons del: upt_Suc)

lemma nth_tabulate2: "y < h \<Longrightarrow> x < w \<Longrightarrow> tabulate2 h w f ! y ! x = f y x"
  by (simp add: tabulate2_def)

lemma concat_map_product:
  "concat (map (\<lambda>y. map (\<lambda>x. f y x) xs) ys) = map (\<lambda>p. f (fst p) (snd p)) (List.product ys xs)"
  by (induction ys) (simp_all add: comp_def)

lemma concat_tabulate2:
  "concat (tabulate2 h w f) = map (\<lambda>p. f (fst p) (snd p)) (positions h w)"
  by (simp add: tabulate2_def positions_def concat_map_product)

lemma count_nonzero_tabulate2:
  "count_nonzero (tabulate2 h w f) = length (filter (\<lambda>p. 0 < f (fst p) (snd p)) (positions h w))"
  by (simp add: count_nonzero_def concat_tabulate2 filter_map comp_def)

lemma size_of_tabulate2: "size_of (tabulate2 h w f) = h * w"
  by (simp add: size_of_def concat_tabulate2 positions_def)

lemma positions_iff: "p \<in> set (positions h w) \<longleftrightarrow> fst p < h \<and> snd p < w"
  by (cases p) (auto simp: positions_def)

lemma height_map: "height (map (map g) im) = height im"
  by (simp add: height_def)

lemma width_map: "width (map (map g) im) = width im"
  by (cases im) (simp_all add: width_def)

lemma width_empty: "height g = 0 \<Longrightarrow> width g = 0"
  by (cases g) (simp_all add: height_def width_def)

lemma height_GaussianBlur: "height (GaussianBlur g) = height g"
  by (simp add: GaussianBlur_def Let_def height_tabulate2)

lemma width_GaussianBlur: "width (GaussianBlur g) = width g"
  by (simp add: GaussianBlur_def Let_def width_tabulate2 width_empty)

lemma size_of_dilate: "size_of (dilate a) = height a * width a"
  by (simp add: dilate_def Let_def size_of_tabulate2)

lemma nbhd_in_range: "(q, r) \<in> set (nbhd h w p) \<Longrightarrow> q < h \<and> r < w"
  by (auto simp: nbhd_def)

subsection \<open>Edge tracking reaches its fixed point\<close>

lemma grow_subset_positions: "set (grow h w cand S) \<subseteq> set (positions h w)"
  by (auto simp: grow_def)

lemma grow_incr: "set S \<subseteq> set (positions h w) \<Longrightarrow> set S \<subseteq> set (grow h w cand S)"
  by (auto simp: grow_def)

lemma grow_set_cong: "set S = set T \<Longrightarrow> grow h w cand S = grow h w cand T"
  by (simp add: grow_def)

lemma rounds_subset_positions:
  "set ((grow h w cand ^^ k) (filter strong (positions h w))) \<subseteq> set (positions h w)"
  by (cases k) (auto simp: grow_subset_positions [THEN subsetD])

lemma rounds_incr:
  "set ((grow h w cand ^^ k) (filter strong (positions h w)))
     \<subseteq> set ((grow h w cand ^^ Suc k) (filter strong (positions h w)))"
  using grow_incr [OF rounds_subset_positions] by simp

lemma rounds_strict:
  assumes "\<forall>j<k. set ((grow h w cand ^^ j) (filter strong (positions h w)))
              \<noteq> set ((grow h w cand ^^ Suc j) (filter strong (positions h w)))"
  shows "k \<le> card (set ((grow h w cand ^^ k) (filter strong (positions h w))))"
  using assms
proof (induction k)
  case 0
  then show ?case by simp
next
  case (Suc k)
  let ?S = "\<lambda>j. set ((grow h w cand ^^ j) (filter strong (positions h w)))"
  from Suc have "k \<le> card (?S k)" by simp
  moreover have "?S k \<subset> ?S (Suc k)" using Suc.prems rounds_incr [where k = k] by blast
  then have "card (?S k) < card (?S (Suc k))" by (intro psubset_card_mono) simp_all
  ultimately show ?case by simp
qed

lemma rounds_stable:
  assumes "set ((grow h w cand ^^ j) S) = set ((grow h w cand ^^ Suc j) S)"
  shows "set ((grow h w cand ^^ (j + d)) S) = set ((grow h w cand ^^ j) S)"
proof (induction d)
  case 0
  then show ?case by simp
next
  case (Suc d)
  have "(grow h w cand ^^ (j + Suc d)) S = grow h w cand ((grow h w cand ^^ (j + d)) S)" by simp
  also have "\<dots> = grow h w cand ((grow h w cand ^^ j) S)" using Suc by (rule grow_set_cong)
  finally show ?case using assms by simp
qed

lemma hysteresis_closed:
  "set (grow h w cand (hysteresis h w cand strong)) = set (hysteresis h w cand strong)"
proof -
  let ?S = "\<lambda>j. set ((grow h w cand ^^ j) (filter strong (positions h w)))"
  have "\<exists>j\<le>h * w. ?S j = ?S (Suc j)"
  proof (rule ccontr)
    assume "\<not> (\<exists>j\<le>h * w. ?S j = ?S (Suc j))"
    then have "\<forall>j<Suc (h * w). ?S j \<noteq> ?S (Suc j)" by (simp add: less_Suc_eq_le)
    from rounds_strict [OF this] have "Suc (h * w) \<le> card (?S (Suc (h * w)))" .
    also have "\<dots> \<le> card (set (positions h w))"
      by (intro card_mono rounds_subset_positions) simp
    also have "\<dots> \<le> length (positions h w)" by (rule card_length)
    also have "\<dots> = h * w" by (simp add: positions_def)
    finally show False by simp
  qed
  then obtain j where j: "j \<le> h * w" "?S j = ?S (Suc j)" by blast
  from rounds_stable [OF j(2), of "h * w - j"] j(1) have a: "?S (h * w) = ?S j" by simp
  from rounds_stable [OF j(2), of "Suc (h * w) - j"] j(1) have b: "?S (Suc (h * w)) = ?S j"
    by (simp add: Suc_diff_le)
  show ?thesis using a b by (simp add: hysteresis_def)
qed

lemma rounds_tracked:
  "p \<in> set ((grow h w cand ^^ k) (filter strong (positions h w))) \<Longrightarrow> tracked h w cand strong p"
proof (induction k arbitrary: p)
  case 0
  then show ?case by (auto intro: tracked.seed)
next
  case (Suc k)
  define T where "T = (grow h w cand ^^ k) (filter strong (positions h w))"
  from Suc.prems have "p \<in> set (grow h w cand T)" by (simp add: T_def)
  then have "p \<in> set (positions h w)"
    and "p \<in> set T \<or> (cand p \<and> (\<exists>q\<in>set (nbhd h w p). q \<in> set T))"
    by (auto simp: grow_def list_ex_iff)
  then show ?case using Suc.IH unfolding T_def by (blast intro: tracked.link)
qed

lemma hysteresis_tracked:
  "p \<in> set (hysteresis h w cand strong) \<longleftrightarrow> tracked h w cand strong p"
proof
  assume "p \<in> set (hysteresis h w cand strong)"
  then show "tracked h w cand strong p" unfolding hysteresis_def by (rule rounds_tracked)
next
  assume "tracked h w cand strong p"
  then show "p \<in> set (hysteresis h w cand strong)"
  proof induction
    case (seed p)
    have "set ((grow h w cand ^^ 0) (filter strong (positions h w)))
        \<subseteq> set ((grow h w cand ^^ k) (filter strong (positions h w)))" for k
    proof (induction k)
      case 0
      show ?case by simp
    next
      case (Suc k)
      then show ?case using rounds_incr [where k = k] by blast
    qed
    from this [of "h * w"] seed show ?case by (auto simp: hysteresis_def)
  next
    case (link q p)
    then have "p \<in> set (grow h w cand (hysteresis h w cand strong))"
      by (auto simp: grow_def list_ex_iff)
    then show ?case by (simp add: hysteresis_closed)
  qed
qed

subsection \<open>Raising the thresholds only removes edges\<close>

lemma grow_mono:
  assumes "\<And>p. cand p \<Longrightarrow> cand' p" and "set S \<subseteq> set S'"
  shows "set (grow h w cand S) \<subseteq> set (grow h w cand' S')"
  using assms by (auto simp: grow_def list_ex_iff)

lemma grow_funpow_mono:
  assumes "\<And>p. cand p \<Longrightarrow> cand' p" and "set S \<subseteq> set S'"
  shows "set ((grow h w cand ^^ n) S) \<subseteq> set ((grow h w cand' ^^ n) S')"
proof (induction n)
  case 0
  then show ?case using assms(2) by simp
next
  case (Suc n)
  then show ?case using grow_mono [OF assms(1)] by simp
qed

lemma hysteresis_mono:
  assumes "\<And>p. cand p \<Longrightarrow> cand' p" and "\<And>p. strong p \<Longrightarrow> strong' p"
  shows "set (hysteresis h w cand strong) \<subseteq> set (hysteresis h w cand' strong')"
  unfolding hysteresis_def
  by (rule grow_funpow_mono) (use assms in auto)

lemma Canny_edges:
  "Canny cv src t1 t2 =
     tabulate2 (height src) (width src) (\<lambda>y x. if (y, x) \<in> set (canny_edges cv src t1 t2) then 255 else 0)"
  by (simp add: Canny_def canny_edges_def Let_def)

lemma canny_edges_mono:
  assumes "min t1 t2 \<le> min u1 u2" and "max t1 t2 \<le> max u1 u2"
  shows "set (canny_edges cv src u1 u2) \<subseteq> set (canny_edges cv src t1 t2)"
  unfolding canny_edges_def Let_def
  by (rule hysteresis_mono) (use assms in \<open>blast intro: le_less_trans\<close>)+

lemma thresholds_mono:
  fixes s1 s2 :: int
  assumes "s1 \<le> s2"
  shows "min (of_int s1 :: rat) (of_int s1 * 5 / 2) \<le> min (of_int s2) (of_int s2 * 5 / 2)"
    and "max (of_int s1 :: rat) (of_int s1 * 5 / 2) \<le> max (of_int s2) (of_int s2 * 5 / 2)"
proof -
  have "(of_int s1 :: rat) \<le> of_int s2" using assms by simp
  then show "min (of_int s1 :: rat) (of_int s1 * 5 / 2) \<le> min (of_int s2) (of_int s2 * 5 / 2)"
    and "max (of_int s1 :: rat) (of_int s1 * 5 / 2) \<le> max (of_int s2) (of_int s2 * 5 / 2)"
    by (auto simp: min_def max_def)
qed

lemma indicator_count_mono:
  assumes "set E \<subseteq> set F"
  shows "count_nonzero (tabulate2 h w (\<lambda>y x. if (y, x) \<in> set E then 255 else 0))
       \<le> count_nonzero (tabulate2 h w (\<lambda>y x. if (y, x) \<in> set F then 255 else 0))"
  unfolding count_nonzero_tabulate2
  by (rule length_filter_mono) (use assms in \<open>auto split: if_splits\<close>)

lemma foldr_max_pos: "0 < foldr max vs (0 :: uint8) \<longleftrightarrow> (\<exists>v\<in>set vs. 0 < v)"
  by (induction vs) (auto simp: max_def)

lemma dilate_indicator_count:
  "count_nonzero (dilate (tabulate2 h w (\<lambda>y x. if (y, x) \<in> set E then 255 else 0))) =
     length (filter (\<lambda>p. \<exists>q\<in>set (nbhd h (if h = 0 then 0 else w) p). q \<in> set E)
        (positions h (if h = 0 then 0 else w)))"
proof -
  let ?src = "tabulate2 h w (\<lambda>y x. if (y, x) \<in> set E then (255 :: uint8) else 0)"
  let ?w = "if h = 0 then 0 else w"
  have cell: "0 < ?src ! q ! r \<longleftrightarrow> (q, r) \<in> set E" if "(q, r) \<in> set (nbhd h ?w p)" for q r p
  proof -
    from nbhd_in_range [OF that] have "q < h" "r < w" by (auto split: if_splits)
    then show ?thesis by (simp add: nth_tabulate2)
  qed
  have "0 < foldr max (map (\<lambda>(q, r). ?src ! q ! r) (nbhd h ?w p)) 0
      \<longleftrightarrow> (\<exists>q\<in>set (nbhd h ?w p). q \<in> set E)" for p
    unfolding foldr_max_pos using cell [of _ _ p] by force
  then show ?thesis
    by (simp add: dilate_def Let_def height_tabulate2 width_tabulate2 count_nonzero_tabulate2
        del: foldr_map)
qed

lemma dilate_indicator_mono:
  assumes "set E \<subseteq> set F"
  shows "count_nonzero (dilate (tabulate2 h w (\<lambda>y x. if (y, x) \<in> set E then 255 else 0)))
       \<le> count_nonzero (dilate (tabulate2 h w (\<lambda>y x. if (y, x) \<in> set F then 255 else 0)))"
  unfolding dilate_indicator_count
  by (rule length_filter_mono) (use assms in auto)

lemma size_of_edge_mask: "size_of (edge_mask cv cfg im) = height im * width im"
  by (simp add: edge_mask_def size_of_dilate Canny_edges height_tabulate2 width_tabulate2
      height_GaussianBlur width_GaussianBlur height_map width_map)

lemma Canny_count_mono:
  assumes "s1 \<le> s2"
  shows "count_nonzero (Canny cv a (of_int s2) (of_int s2 * 5 / 2))
       \<le> count_nonzero (Canny cv a (of_int s1) (of_int s1 * 5 / 2))"
  unfolding Canny_edges
  by (intro indicator_count_mono canny_edges_mono thresholds_mono assms)

lemma edge_mask_count_mono:
  assumes "sensitivity cfg1 \<le> sensitivity cfg2"
  shows "count_nonzero (edge_mask cv cfg2 im) \<le> count_nonzero (edge_mask cv cfg1 im)"
  unfolding edge_mask_def Canny_edges
  by (intro dilate_indicator_mono canny_edges_mono thresholds_mono assms)

text \<open>
  Claim C8. For a fixed image, a larger sensitivity never gives more edge cells, neither in
  the output of the detector nor in the dilated edge mask, and so never a larger density.
\<close>

theorem sensitivity_antimono:
  assumes "sensitivity cfg1 \<le> sensitivity cfg2"
  shows "count_nonzero (Canny cv blurred (of_int (sensitivity cfg2)) (of_int (sensitivity cfg2) * 5 / 2))
           \<le> count_nonzero (Canny cv blurred (of_int (sensitivity cfg1)) (of_int (sensitivity cfg1) * 5 / 2)) \<and>
         count_nonzero (edge_mask cv cfg2 im) \<le> count_nonzero (edge_mask cv cfg1 im) \<and>
         (0 < height im \<and> 0 < width im \<longrightarrow>
            fle (density_of (edge_mask cv cfg2 im)) (density_of (edge_mask cv cfg1 im)))"
proof -
  have c: "count_nonzero (edge_mask cv cfg2 im) \<le> count_nonzero (edge_mask cv cfg1 im)"
    using assms by (rule edge_mask_count_mono)
  have d: "fle (density_of (edge_mask cv cfg2 im)) (density_of (edge_mask cv cfg1 im))"
    if "0 < height im \<and> 0 < width im"
  proof -
    define n :: rat where "n = of_nat (height im * width im)"
    have n: "0 < n" using that by (simp add: n_def)
    have "(of_nat (count_nonzero (edge_mask cv cfg2 im)) :: rat) \<le> of_nat (count_nonzero (edge_mask cv cfg1 im))"
      using c by simp
    then have "of_nat (count_nonzero (edge_mask cv cfg2 im)) / n * 100
        \<le> of_nat (count_nonzero (edge_mask cv cfg1 im)) / n * 100"
      using n by (simp add: divide_right_mono)
    then show ?thesis
      using that by (simp add: density_of_def size_of_edge_mask n_def)
  qed
  show ?thesis using Canny_count_mono [OF assms] c d by blast
qed

theorem sensitivity_antimono_witness:
  "sensitivity (sidebar ui_demo) \<le> sensitivity (sidebar (ui_demo\<lparr>sensitivity_input := Some 200\<rparr>)) \<and>
   edge_mask cv_demo (sidebar ui_demo) [[(0, 0, 0), (255, 255, 255), (255, 255, 255)]]
     = [[255, 255, 255]] \<and>
   edge_mask cv_demo (sidebar (ui_demo\<lparr>sensitivity_input := Some 200\<rparr>))
     [[(0, 0, 0), (255, 255, 255), (255, 255, 255)]] = [[0, 0, 0]] \<and>
   count_nonzero (edge_mask cv_demo (sidebar (ui_demo\<lparr>sensitivity_input := Some 200\<rparr>))
       [[(0, 0, 0), (255, 255, 255), (255, 255, 255)]])
     \<le> count_nonzero (edge_mask cv_demo (sidebar ui_demo) [[(0, 0, 0), (255, 255, 255), (255, 255, 255)]]) \<and>
   fle (density_of (edge_mask cv_demo (sidebar (ui_demo\<lparr>sensitivity_input := Some 200\<rparr>))
          [[(0, 0, 0), (255, 255, 255), (255, 255, 255)]]))
       (density_of (edge_mask cv_demo (sidebar ui_demo) [[(0, 0, 0), (255, 255, 255), (255, 255, 255)]]))"
proof -
  have h: "sensitivity (sidebar ui_demo) \<le> sensitivity (sidebar (ui_demo\<lparr>sensitivity_input := Some 200\<rparr>))"
    by (simp add: sidebar_def slider_def ui_demo_def)
  have g: "0 < height [[(0 :: uint8, 0 :: uint8, 0 :: uint8), (255, 255, 255), (255, 255, 255)]] \<and>
           0 < width [[(0 :: uint8, 0 :: uint8, 0 :: uint8), (255, 255, 255), (255, 255, 255)]]"
    by (simp add: height_def width_def)
  have lo: "edge_mask cv_demo (sidebar ui_demo) [[(0, 0, 0), (255, 255, 255), (255, 255, 255)]]
      = [[255, 255, 255]]"
    by code_simp
  have hi: "edge_mask cv_demo (sidebar (ui_demo\<lparr>sensitivity_input := Some 200\<rparr>))
      [[(0, 0, 0), (255, 255, 255), (255, 255, 255)]] = [[0, 0, 0]]"
    by code_simp
  show ?thesis
    using h g lo hi
      sensitivity_antimono [OF h, of cv_demo "[]" "[[(0, 0, 0), (255, 255, 255), (255, 255, 255)]]"]
    by blast
qed

subsection \<open>Uniform images\<close>

lemma reflect101_less: "0 < n \<Longrightarrow> reflect101 n p < n"
proof -
  assume n: "0 < n"
  show ?thesis
  proof (cases "n \<le> 1")
    case True
    then show ?thesis using n by (simp add: reflect101_def)
  next
    case False
    define m where "m = 2 * (int n - 1)"
    have m: "0 < m" using False by (simp add: m_def)
    have "0 \<le> p mod m" "p mod m < m" using m by simp_all
    then show ?thesis using False
      by (auto simp: reflect101_def Let_def m_def [symmetric])
  qed
qed

lemma clamp_ix_less: "0 < n \<Longrightarrow> clamp_ix n p < n"
  by (auto simp: clamp_ix_def)

lemma gauss_weights:
  "sum_list (map (\<lambda>(i, j). gauss5 ! i * gauss5 ! j * u) (List.product [0..<5] [0..<5])) = 256 * u"
  by (simp add: gauss5_def upt_rec [of _ "numeral k" for k] algebra_simps)

lemma GaussianBlur_uniform:
  assumes "0 < h" "0 < w"
  shows "GaussianBlur (replicate h (replicate w c)) = replicate h (replicate w c)"
proof -
  let ?src = "replicate h (replicate w c)"
  have cell: "?src ! reflect101 h a ! reflect101 w b = c" for a b
    using assms by (simp add: reflect101_less)
  have "(sum_list (map (\<lambda>(i, j). gauss5 ! i * gauss5 ! j *
            uint (?src ! reflect101 h (int y + int i - 2) ! reflect101 w (int x + int j - 2)))
          (List.product [0..<5] [0..<5])) + 128) div 256 = uint c" for y x
    by (simp only: cell gauss_weights)
  then show ?thesis
    using assms by (simp add: GaussianBlur_def height_replicate width_replicate tabulate2_const)
qed

lemma at_replicate_uniform:
  "0 < h \<Longrightarrow> 0 < w \<Longrightarrow> at_replicate (replicate h (replicate w c)) y x = uint c"
  by (simp add: at_replicate_def height_replicate width_replicate clamp_ix_less)

lemma sobel_uniform:
  assumes "0 < h" "0 < w"
  shows "sobel_x (replicate h (replicate w c)) y x = 0"
    and "sobel_y (replicate h (replicate w c)) y x = 0"
  using assms by (simp_all add: sobel_x_def sobel_y_def at_replicate_uniform)

lemma grow_nothing: "grow h w (\<lambda>p. False) [] = []"
  by (simp add: grow_def)

lemma hysteresis_nothing: "hysteresis h w (\<lambda>p. False) (\<lambda>p. False) = []"
proof -
  have "(grow h w (\<lambda>p. False) ^^ n) [] = []" for n
    by (induction n) (simp_all add: grow_nothing)
  then show ?thesis by (simp add: hysteresis_def)
qed

lemma Canny_uniform:
  assumes "0 < h" "0 < w" "0 \<le> t1" "0 \<le> t2"
  shows "Canny cv (replicate h (replicate w c)) t1 t2 = replicate h (replicate w 0)"
proof -
  have "\<not> min t1 t2 < 0" using assms by simp
  then show ?thesis
    using assms
    by (simp add: Canny_def Let_def sobel_uniform height_replicate width_replicate
        hysteresis_nothing tabulate2_const)
qed

lemma foldr_max_zero: "(\<And>v. v \<in> set vs \<Longrightarrow> v = 0) \<Longrightarrow> foldr max vs (0 :: uint8) = 0"
  by (induction vs) simp_all

lemma dilate_zero:
  assumes "0 < h" "0 < w"
  shows "dilate (replicate h (replicate w 0)) = replicate h (replicate w 0)"
proof -
  have "foldr max (map (\<lambda>(q, r). replicate h (replicate w (0 :: uint8)) ! q ! r) (nbhd h w (y, x))) 0 = 0"
    for y x
    by (rule foldr_max_zero) (auto dest: nbhd_in_range)
  then show ?thesis
    using assms by (simp add: dilate_def height_replicate width_replicate tabulate2_const)
qed

lemma edge_mask_uniform:
  assumes "0 < h" "0 < w" "0 \<le> sensitivity cfg"
  shows "edge_mask cv cfg (replicate h (replicate w p)) = replicate h (replicate w 0)"
  using assms
  by (simp add: edge_mask_def GaussianBlur_uniform Canny_uniform dilate_zero)

lemma density_zero_mask:
  "0 < h \<Longrightarrow> 0 < w \<Longrightarrow> density_of (replicate h (replicate w 0)) = Finite 0"
  by (simp add: density_of_def size_of_def count_nonzero_def
      concat_replicate_length filter_concat_replicate)

text \<open>
  Claim C9. For an image of one colour the edge mask is zero everywhere, the density is 0,
  the tier is SAFE and the region count is 0. The sensitivity is not negative (the slider
  gives 20 to 200), and the contour tracer finds no contour in a mask without an edge cell.
\<close>

theorem uniform_image_no_edges:
  assumes "imdecode cv (snd f) = Some (replicate h (replicate w p))"
    and "0 < h" and "0 < w"
    and "0 \<le> sensitivity cfg"
    and "findContours cv (replicate h (replicate w 0)) = []"
  shows "edge_mask cv cfg (replicate h (replicate w p)) = replicate h (replicate w 0) \<and>
         density_of (edge_mask cv cfg (replicate h (replicate w p))) = Finite 0 \<and>
         (\<exists>r. process_image cv cfg f = Inr r \<and>
              density r = Finite 0 \<and> status r = SAFE \<and> count r = 0)"
proof -
  have m: "edge_mask cv cfg (replicate h (replicate w p)) = replicate h (replicate w 0)"
    using assms by (simp add: edge_mask_uniform)
  have d: "density_of (replicate h (replicate w 0)) = Finite 0"
    using assms by (simp add: density_zero_mask)
  have z: "rint up 0 = 0" for up by (simp add: rint_def)
  from process_image_Some [OF assms(1), of cfg]
  show ?thesis
    using assms(5) by (auto simp: m d z risk_def annotate_def np_copy_def)
qed

theorem uniform_image_no_edges_witness:
  "imdecode cv_demo (snd (''a.png'', [7, 7])) = Some (replicate 1 (replicate 2 (7, 7, 7))) \<and>
   (0 :: int) \<le> sensitivity (sidebar ui_demo) \<and>
   findContours cv_demo (replicate 1 (replicate 2 0)) = [] \<and>
   edge_mask cv_demo (sidebar ui_demo) (replicate 1 (replicate 2 (7, 7, 7))) = replicate 1 (replicate 2 0) \<and>
   (\<exists>r. process_image cv_demo (sidebar ui_demo) (''a.png'', [7, 7]) = Inr r \<and>
        density r = Finite 0 \<and> status r = SAFE \<and> count r = 0)"
proof -
  have i: "imdecode cv_demo (snd (''a.png'', [7, 7])) = Some (replicate 1 (replicate 2 (7, 7, 7)))"
    by (simp add: cv_demo_def numeral_2_eq_2)
  have s: "(0 :: int) \<le> sensitivity (sidebar ui_demo)"
    by (simp add: sidebar_def slider_def ui_demo_def)
  have c: "findContours cv_demo (replicate 1 (replicate 2 0)) = []"
    by (simp add: cv_demo_def height_def width_def positions_def numeral_2_eq_2)
  show ?thesis
    using i s c uniform_image_no_edges [OF i _ _ s c] by simp
qed

end
